theory Spec2Isabelle
  imports Complex_Main "HOL-Library.Multiset"
begin

section \<open>JSON values and Python's dictionaries\<close>

text \<open>
  \<^verbatim>\<open>json.load\<close> turns a file into Python values: \<^verbatim>\<open>None\<close>, booleans, unbounded
  integers, floats, strings, lists and dictionaries. A dictionary keeps its keys in
  insertion order, so it is an association list. A float is modelled by its exact
  rational value; the values \<^verbatim>\<open>NaN\<close> and \<^verbatim>\<open>Infinity\<close> that the decoder also accepts are
  outside the model. A string is its UTF-8 byte sequence, whose lexicographic order is the
  order of the code points.
\<close>

datatype json =
    JNull
  | JBool bool
  | JInt int
  | JFloat rat
  | JStr string
  | JArr "json list"
  | JObj "(string \<times> json) list"

type_synonym dict = "(string \<times> json) list"

text \<open>\<^verbatim>\<open>key in d\<close>, \<^verbatim>\<open>d.get(key, default)\<close> and \<^verbatim>\<open>d[key] = value\<close>.\<close>

definition dict_has :: "dict \<Rightarrow> string \<Rightarrow> bool" where
  "dict_has d k = (map_of d k \<noteq> None)"

definition dict_get :: "dict \<Rightarrow> string \<Rightarrow> json \<Rightarrow> json" where
  "dict_get d k dflt = (case map_of d k of None \<Rightarrow> dflt | Some v \<Rightarrow> v)"

fun setitem :: "string \<Rightarrow> json \<Rightarrow> dict \<Rightarrow> dict" where
  "setitem k v [] = [(k, v)]"
| "setitem k v ((k', v') # d) = (if k' = k then (k, v) # d else (k', v') # setitem k v d)"

section \<open>Errors\<close>

text \<open>
  The exceptions the program raises itself carry the message text of the source; the
  last four are raised by the interpreter (a method that the value does not have, an
  operator its operands do not support, a missing key, an index out of range).
\<close>

datatype error =
    ValueError string
  | FileNotFoundError string
  | Exception string
  | AttributeError
  | TypeError
  | KeyError
  | IndexError

text \<open>The three \<^verbatim>\<open>ValueError\<close>s of \<^verbatim>\<open>merge_log_files\<close> (lines 68, 79 and 81).\<close>

definition InsufficientInputs :: error where
  "InsufficientInputs = ValueError ''At least 2 files are required for merging''"

definition MissingDataField :: "string \<Rightarrow> error" where
  "MissingDataField filepath =
     ValueError (''File '' @ filepath @ '' is missing required 'data' field'')"

definition InvalidDataType :: "string \<Rightarrow> error" where
  "InvalidDataType filepath =
     ValueError (''File '' @ filepath @ '' 'data' field must be a list'')"

text \<open>
  The error kinds that the program signals on purpose, as opposed to the interpreter's own
  exceptions escaping from it.
\<close>

fun in_taxonomy :: "error \<Rightarrow> bool" where
  "in_taxonomy (ValueError m) = True"
| "in_taxonomy (FileNotFoundError m) = True"
| "in_taxonomy (Exception m) = True"
| "in_taxonomy e = False"

section \<open>Loading\<close>

text \<open>
  \<^verbatim>\<open>load_json_file\<close> reads the file system, which the model takes as a function from a
  path to what is found there: nothing, text that is not JSON (with the decoder's
  complaint), a file whose reading fails otherwise, or a parsed document. The source types
  the document as \<^verbatim>\<open>Dict[str, Any]\<close>.
\<close>

datatype stored = Absent | Invalid string | Failing string | Parsed dict

type_synonym filesystem = "string \<Rightarrow> stored"

definition load_json_file :: "filesystem \<Rightarrow> string \<Rightarrow> error + dict" where
  "load_json_file fs filepath =
     (case fs filepath of
        Absent \<Rightarrow> Inl (FileNotFoundError (''File not found: '' @ filepath))
      | Invalid e \<Rightarrow> Inl (ValueError (''Invalid JSON in file '' @ filepath @ '': '' @ e))
      | Failing e \<Rightarrow> Inl (Exception (''Error reading file '' @ filepath @ '': '' @ e))
      | Parsed d \<Rightarrow> Inr d)"

text \<open>Lines 70 to 73: the files are loaded in order, the first failure ends the run.\<close>

fun load_all :: "filesystem \<Rightarrow> string list \<Rightarrow> error + (string \<times> dict) list" where
  "load_all fs [] = Inr []"
| "load_all fs (filepath # rest) =
     (case load_json_file fs filepath of
        Inl e \<Rightarrow> Inl e
      | Inr log_data \<Rightarrow>
          (case load_all fs rest of
             Inl e \<Rightarrow> Inl e
           | Inr log_data_list \<Rightarrow> Inr ((filepath, log_data) # log_data_list)))"

section \<open>Lineage\<close>

definition is_merged_file :: "dict \<Rightarrow> bool" where
  "is_merged_file log_data = dict_has log_data ''merged_sources''"

text \<open>
  \<^verbatim>\<open>create_merged_metadata\<close>, with the clock's reading \<open>now\<close> as a parameter. Where the
  inherited \<^verbatim>\<open>merged_sources\<close> is not a dictionary, \<^verbatim>\<open>.get\<close> does not exist; where its
  \<^verbatim>\<open>additional_files\<close> is not a list, \<^verbatim>\<open>+\<close> with a list is not supported; where its
  \<^verbatim>\<open>previous_merges\<close> is not a list, \<^verbatim>\<open>.append\<close> does not exist.
\<close>

definition create_merged_metadata :: "string \<Rightarrow> string \<Rightarrow> string list \<Rightarrow> dict \<Rightarrow> error + dict" where
  "create_merged_metadata now base_file additional_files base_data =
     (let merged_info =
            [(''merged_at'', JStr now),
             (''base_file'', JStr base_file),
             (''additional_files'', JArr (map JStr additional_files)),
             (''total_files_merged'', JInt (int (length additional_files) + 1))]
      in if is_merged_file base_data then
           (case dict_get base_data ''merged_sources'' (JObj []) of
              JObj existing_sources \<Rightarrow>
                (case dict_get existing_sources ''additional_files'' (JArr []) of
                   JArr inherited \<Rightarrow>
                     (let all_additional = inherited @ map JStr additional_files;
                          extended =
                            setitem ''total_files_merged'' (JInt (int (length all_additional) + 1))
                              (setitem ''additional_files'' (JArr all_additional)
                                 (setitem ''base_file''
                                    (dict_get existing_sources ''base_file'' (JStr base_file))
                                    merged_info))
                      in case dict_get existing_sources ''previous_merges'' (JArr []) of
                           JArr previous \<Rightarrow>
                             Inr (setitem ''previous_merges''
                                    (JArr (previous @
                                       [JObj [(''merged_at'', dict_get existing_sources ''merged_at'' JNull),
                                              (''files_in_merge'',
                                               JArr (dict_get existing_sources ''base_file'' JNull # inherited))]]))
                                    extended)
                         | _ \<Rightarrow> Inl AttributeError)
                 | _ \<Rightarrow> Inl TypeError)
            | _ \<Rightarrow> Inl AttributeError)
         else Inr merged_info)"

section \<open>Comparing and sorting\<close>

text \<open>
  Python's \<^verbatim>\<open>==\<close> and \<^verbatim>\<open><\<close> on decoded values. Booleans, integers and floats compare by
  value; strings with strings; lists with lists, at the first position where the elements
  are not equal; every other pair has no order and \<^verbatim>\<open><\<close> raises \<^verbatim>\<open>TypeError\<close>.
\<close>

fun num_of :: "json \<Rightarrow> rat option" where
  "num_of (JBool b) = Some (if b then 1 else 0)"
| "num_of (JInt i) = Some (of_int i)"
| "num_of (JFloat q) = Some q"
| "num_of v = None"

fun str_lt :: "string \<Rightarrow> string \<Rightarrow> bool" where
  "str_lt [] [] = False"
| "str_lt [] (d # ds) = True"
| "str_lt (c # cs) [] = False"
| "str_lt (c # cs) (d # ds) =
     (if c = d then str_lt cs ds else (of_char c :: nat) < of_char d)"

fun py_eq :: "json \<Rightarrow> json \<Rightarrow> bool" where
  "py_eq (JArr xs) (JArr ys) = list_all2 py_eq xs ys"
| "py_eq (JObj xs) (JObj ys) =
     (length xs = length ys \<and>
      list_all (\<lambda>(k, v). case map_of ys k of None \<Rightarrow> False | Some w \<Rightarrow> py_eq v w) xs)"
| "py_eq (JStr s) (JStr t) = (s = t)"
| "py_eq JNull JNull = True"
| "py_eq a b = (case (num_of a, num_of b) of (Some x, Some y) \<Rightarrow> x = y | _ \<Rightarrow> False)"

fun py_lt :: "json \<Rightarrow> json \<Rightarrow> error + bool"
  and list_lt :: "json list \<Rightarrow> json list \<Rightarrow> error + bool" where
  "py_lt (JStr s) (JStr t) = Inr (str_lt s t)"
| "py_lt (JArr xs) (JArr ys) = list_lt xs ys"
| "py_lt a b =
     (case (num_of a, num_of b) of (Some x, Some y) \<Rightarrow> Inr (x < y) | _ \<Rightarrow> Inl TypeError)"
| "list_lt [] [] = Inr False"
| "list_lt [] (y # ys) = Inr True"
| "list_lt (x # xs) [] = Inr False"
| "list_lt (x # xs) (y # ys) = (if py_eq x y then list_lt xs ys else py_lt x y)"

text \<open>
  \<^verbatim>\<open>list.sort(key=...)\<close> as the interpreter runs it. The keys are computed first, one per
  element; the sort then works on the pairs of key and element, in place, and compares
  keys with \<^verbatim>\<open><\<close> only. It finds the run the list starts with (ascending, or strictly
  descending and then reversed) and inserts every later element into the sorted prefix at
  the place a binary search gives, behind the elements it is not smaller than. When a
  comparison raises, the sort stops and the list stays as the moves made so far left it.

  This is the interpreter's path for fewer than 64 elements. On a longer list it merges
  such runs; the outcome is the same stable sort whenever no comparison raises, and it
  is again some rearrangement of the list when one does.
\<close>

type_synonym entry = "json \<times> json"

fun run_desc :: "json \<Rightarrow> json list \<Rightarrow> error + nat" where
  "run_desc prev [] = Inr 0"
| "run_desc prev (k # ks) =
     (case py_lt k prev of
        Inl e \<Rightarrow> Inl e
      | Inr b \<Rightarrow>
          if b then (case run_desc k ks of Inl e \<Rightarrow> Inl e | Inr n \<Rightarrow> Inr (Suc n))
          else Inr 0)"

fun run_asc :: "json \<Rightarrow> json list \<Rightarrow> error + nat" where
  "run_asc prev [] = Inr 0"
| "run_asc prev (k # ks) =
     (case py_lt k prev of
        Inl e \<Rightarrow> Inl e
      | Inr b \<Rightarrow>
          if b then Inr 0
          else (case run_asc k ks of Inl e \<Rightarrow> Inl e | Inr n \<Rightarrow> Inr (Suc n)))"

fun count_run :: "json list \<Rightarrow> error + (nat \<times> bool)" where
  "count_run [] = Inr (0, False)"
| "count_run [k0] = Inr (1, False)"
| "count_run (k0 # k1 # ks) =
     (case py_lt k1 k0 of
        Inl e \<Rightarrow> Inl e
      | Inr b \<Rightarrow>
          if b then (case run_desc k1 ks of Inl e \<Rightarrow> Inl e | Inr n \<Rightarrow> Inr (n + 2, True))
          else (case run_asc k1 ks of Inl e \<Rightarrow> Inl e | Inr n \<Rightarrow> Inr (n + 2, False)))"

text \<open>
  The binary search for the place of \<open>pivot\<close> among \<open>ks ! l, ..., ks ! (r - 1)\<close>; it is
  entered with \<open>l < r \<le> length ks\<close>.
\<close>

function bisect :: "json list \<Rightarrow> json \<Rightarrow> nat \<Rightarrow> nat \<Rightarrow> error + nat" where
  "bisect ks pivot l r =
     (let p = l + (r - l) div 2 in
      case py_lt pivot (ks ! p) of
        Inl e \<Rightarrow> Inl e
      | Inr b \<Rightarrow>
          (let l' = (if b then l else p + 1); r' = (if b then p else r)
           in if l' < r' then bisect ks pivot l' r' else Inr l'))"
  by pat_completeness auto
termination
  by (relation "measure (\<lambda>(ks, pivot, l, r). r - l)") (auto split: if_splits)

declare bisect.simps [simp del]

text \<open>The element at \<open>start\<close> moves to position \<open>l\<close>; those between move up by one.\<close>

definition slide :: "'a list \<Rightarrow> nat \<Rightarrow> nat \<Rightarrow> 'a list" where
  "slide xs l start =
     take l xs @ [xs ! start] @ drop l (take start xs) @ drop (Suc start) xs"

fun binarysort :: "entry list \<Rightarrow> nat list \<Rightarrow> entry list \<times> error option" where
  "binarysort xs [] = (xs, None)"
| "binarysort xs (start # rest) =
     (case bisect (map fst xs) (fst (xs ! start)) 0 start of
        Inl e \<Rightarrow> (xs, Some e)
      | Inr l \<Rightarrow> binarysort (slide xs l start) rest)"

definition list_sort :: "entry list \<Rightarrow> entry list \<times> error option" where
  "list_sort xs =
     (if length xs < 2 then (xs, None)
      else case count_run (map fst xs) of
        Inl e \<Rightarrow> (xs, Some e)
      | Inr (n, descending) \<Rightarrow>
          binarysort (if descending then rev (take n xs) @ drop n xs else xs)
            [n ..< length xs])"

section \<open>The merge\<close>

text \<open>
  \<^verbatim>\<open>get_timestamp\<close> (line 94): \<^verbatim>\<open>record.get("timestamp", 0)\<close>. Only a dictionary has
  \<^verbatim>\<open>.get\<close>.
\<close>

fun get_timestamp :: "json \<Rightarrow> error + json" where
  "get_timestamp (JObj record) = Inr (dict_get record ''timestamp'' (JInt 0))"
| "get_timestamp record = Inl AttributeError"

fun timestamps :: "json list \<Rightarrow> error + json list" where
  "timestamps [] = Inr []"
| "timestamps (record # records) =
     (case get_timestamp record of
        Inl e \<Rightarrow> Inl e
      | Inr k \<Rightarrow> (case timestamps records of Inl e \<Rightarrow> Inl e | Inr ks \<Rightarrow> Inr (k # ks)))"

text \<open>
  Lines 97 to 100: the sort inside \<^verbatim>\<open>try\<close>, with \<^verbatim>\<open>TypeError\<close> and \<^verbatim>\<open>KeyError\<close> caught
  and dropped. A failing key function raises before any element has moved, and its
  \<^verbatim>\<open>AttributeError\<close> is not caught.
\<close>

definition sort_records :: "json list \<Rightarrow> error + json list" where
  "sort_records all_data_records =
     (case timestamps all_data_records of
        Inl e \<Rightarrow> (if e = TypeError \<or> e = KeyError then Inr all_data_records else Inl e)
      | Inr ks \<Rightarrow>
          (case list_sort (zip ks all_data_records) of
             (ordered, None) \<Rightarrow> Inr (map snd ordered)
           | (partly, Some e) \<Rightarrow>
               if e = TypeError \<or> e = KeyError then Inr (map snd partly) else Inl e))"

text \<open>Lines 77 to 81: every loaded document is checked, in order.\<close>

fun validate :: "(string \<times> dict) list \<Rightarrow> error + unit" where
  "validate [] = Inr ()"
| "validate ((filepath, log_data) # rest) =
     (if \<not> dict_has log_data ''data'' then Inl (MissingDataField filepath)
      else case dict_get log_data ''data'' JNull of
             JArr records \<Rightarrow> validate rest
           | _ \<Rightarrow> Inl (InvalidDataType filepath))"

text \<open>\<^verbatim>\<open>log_data["data"]\<close> of a document that has passed the check: a list.\<close>

definition records_of :: "dict \<Rightarrow> json list" where
  "records_of log_data = (case map_of log_data ''data'' of Some (JArr records) \<Rightarrow> records | _ \<Rightarrow> [])"

definition merge_log_files :: "filesystem \<Rightarrow> string \<Rightarrow> string list \<Rightarrow> error + dict" where
  "merge_log_files fs now file_paths =
     (if length file_paths < 2 then Inl InsufficientInputs
      else case load_all fs file_paths of
        Inl e \<Rightarrow> Inl e
      | Inr [] \<Rightarrow> Inl IndexError
      | Inr ((base_filepath, base_data) # others) \<Rightarrow>
          (case validate ((base_filepath, base_data) # others) of
             Inl e \<Rightarrow> Inl e
           | Inr u \<Rightarrow>
               (let all_data_records = records_of base_data @ concat (map (records_of \<circ> snd) others);
                    additional_files = map fst others
                in case sort_records all_data_records of
                     Inl e \<Rightarrow> Inl e
                   | Inr ordered \<Rightarrow>
                       (case create_merged_metadata now base_filepath additional_files base_data of
                          Inl e \<Rightarrow> Inl e
                        | Inr merged_sources \<Rightarrow>
                            Inr (setitem ''merged_sources'' (JObj merged_sources)
                                   (setitem ''data'' (JArr ordered) base_data))))))"

section \<open>Notions used in the statements\<close>





fun is_object :: "json \<Rightarrow> bool" where
  "is_object (JObj d) = True"
| "is_object v = False"

fun is_list :: "json \<Rightarrow> bool" where
  "is_list (JArr xs) = True"
| "is_list v = False"

text \<open>
  The documents that the paths load to, the records of all of them in input order, and the
  input sets that pass the checks of lines 67 to 81.
\<close>

definition loaded :: "filesystem \<Rightarrow> string list \<Rightarrow> (string \<times> dict) list" where
  "loaded fs file_paths =
     (case load_all fs file_paths of Inr log_data_list \<Rightarrow> log_data_list | Inl e \<Rightarrow> [])"

definition combined_records :: "filesystem \<Rightarrow> string list \<Rightarrow> json list" where
  "combined_records fs file_paths = concat (map (records_of \<circ> snd) (loaded fs file_paths))"

definition valid_input_set :: "filesystem \<Rightarrow> string list \<Rightarrow> bool" where
  "valid_input_set fs file_paths =
     (2 \<le> length file_paths \<and>
      (case load_all fs file_paths of
         Inr log_data_list \<Rightarrow> validate log_data_list = Inr ()
       | Inl e \<Rightarrow> False))"

text \<open>The first document, in input order, whose \<^verbatim>\<open>data\<close> is missing or is not a list.\<close>

definition has_list_data :: "dict \<Rightarrow> bool" where
  "has_list_data log_data =
     (dict_has log_data ''data'' \<and> is_list (dict_get log_data ''data'' JNull))"

definition first_invalid :: "(string \<times> dict) list \<Rightarrow> (string \<times> dict) option" where
  "first_invalid log_data_list =
     find (\<lambda>(filepath, log_data). \<not> has_list_data log_data) log_data_list"


definition without_merged_at :: "dict \<Rightarrow> dict" where
  "without_merged_at lineage = filter (\<lambda>(k, v). k \<noteq> ''merged_at'') lineage"

section \<open>Objects and references\<close>

text \<open>
  Lists and dictionaries are objects: a variable holds a reference, and \<^verbatim>\<open>.append\<close> and
  item assignment change the object that every holder of the reference sees. The store is
  the list of the objects allocated so far, a reference is an index into it.
\<close>

type_synonym addr = nat

datatype pyval = VNone | VBool bool | VInt int | VFloat rat | VStr string | VRef addr

datatype pyobj = OList "pyval list" | ODict "(string \<times> pyval) list"

type_synonym heap = "pyobj list"

type_synonym 'a action = "heap \<Rightarrow> error + ('a \<times> heap)"

definition return_h :: "'a \<Rightarrow> 'a action" where
  "return_h x h = Inr (x, h)"

definition bind_h :: "'a action \<Rightarrow> ('a \<Rightarrow> 'b action) \<Rightarrow> 'b action" where
  "bind_h m f h = (case m h of Inl e \<Rightarrow> Inl e | Inr (x, h') \<Rightarrow> f x h')"

definition obj_at :: "heap \<Rightarrow> pyval \<Rightarrow> pyobj option" where
  "obj_at h v =
     (case v of VRef a \<Rightarrow> (if a < length h then Some (h ! a) else None) | _ \<Rightarrow> None)"

definition new_obj :: "pyobj \<Rightarrow> pyval action" where
  "new_obj ob h = Inr (VRef (length h), h @ [ob])"

text \<open>What \<^verbatim>\<open>json.load\<close> builds: a fresh object for every list and dictionary.\<close>

fun store_json :: "json \<Rightarrow> heap \<Rightarrow> pyval \<times> heap"
  and store_list :: "json list \<Rightarrow> heap \<Rightarrow> pyval list \<times> heap"
  and store_items :: "(string \<times> json) list \<Rightarrow> heap \<Rightarrow> (string \<times> pyval) list \<times> heap" where
  "store_json JNull h = (VNone, h)"
| "store_json (JBool b) h = (VBool b, h)"
| "store_json (JInt i) h = (VInt i, h)"
| "store_json (JFloat q) h = (VFloat q, h)"
| "store_json (JStr s) h = (VStr s, h)"
| "store_json (JArr xs) h =
     (case store_list xs h of (vs, h') \<Rightarrow> (VRef (length h'), h' @ [OList vs]))"
| "store_json (JObj kvs) h =
     (case store_items kvs h of (ws, h') \<Rightarrow> (VRef (length h'), h' @ [ODict ws]))"
| "store_list [] h = ([], h)"
| "store_list (x # xs) h =
     (case store_json x h of (v, h1) \<Rightarrow>
        case store_list xs h1 of (vs, h2) \<Rightarrow> (v # vs, h2))"
| "store_items [] h = ([], h)"
| "store_items ((k, x) # kvs) h =
     (case store_json x h of (v, h1) \<Rightarrow>
        case store_items kvs h1 of (ws, h2) \<Rightarrow> ((k, v) # ws, h2))"

text \<open>The value that a reference stands for, read to the depth \<open>fuel\<close>.\<close>

fun read_json :: "nat \<Rightarrow> heap \<Rightarrow> pyval \<Rightarrow> json option" where
  "read_json fuel h VNone = Some JNull"
| "read_json fuel h (VBool b) = Some (JBool b)"
| "read_json fuel h (VInt i) = Some (JInt i)"
| "read_json fuel h (VFloat q) = Some (JFloat q)"
| "read_json fuel h (VStr s) = Some (JStr s)"
| "read_json 0 h (VRef a) = None"
| "read_json (Suc fuel) h (VRef a) =
     (case obj_at h (VRef a) of
        None \<Rightarrow> None
      | Some (OList vs) \<Rightarrow> map_option JArr (those (map (read_json fuel h) vs))
      | Some (ODict kvs) \<Rightarrow>
          map_option JObj
            (those (map (\<lambda>(k, v). map_option (Pair k) (read_json fuel h v)) kvs)))"

text \<open>
  \<^verbatim>\<open>key in obj\<close>, \<^verbatim>\<open>obj.get(key, default)\<close>, \<^verbatim>\<open>obj[key] = value\<close>, \<^verbatim>\<open>obj[key]\<close>,
  \<^verbatim>\<open>len(obj)\<close>, \<^verbatim>\<open>a + b\<close>, the lookup of \<^verbatim>\<open>obj.append\<close> and its call.
\<close>

definition py_contains :: "pyval \<Rightarrow> string \<Rightarrow> bool action" where
  "py_contains obj k h =
     (case obj_at h obj of
        Some (ODict kvs) \<Rightarrow> Inr (map_of kvs k \<noteq> None, h)
      | Some (OList vs) \<Rightarrow> Inr (VStr k \<in> set vs, h)
      | None \<Rightarrow> Inl TypeError)"

definition py_get :: "pyval \<Rightarrow> string \<Rightarrow> pyval \<Rightarrow> pyval action" where
  "py_get obj k dflt h =
     (case obj_at h obj of
        Some (ODict kvs) \<Rightarrow> Inr (case map_of kvs k of None \<Rightarrow> dflt | Some v \<Rightarrow> v, h)
      | _ \<Rightarrow> Inl AttributeError)"

fun update_items :: "string \<Rightarrow> pyval \<Rightarrow> (string \<times> pyval) list \<Rightarrow> (string \<times> pyval) list" where
  "update_items k v [] = [(k, v)]"
| "update_items k v ((k', v') # d) =
     (if k' = k then (k, v) # d else (k', v') # update_items k v d)"

definition py_setitem :: "pyval \<Rightarrow> string \<Rightarrow> pyval \<Rightarrow> unit action" where
  "py_setitem obj k v h =
     (case (obj, obj_at h obj) of
        (VRef a, Some (ODict kvs)) \<Rightarrow> Inr ((), h[a := ODict (update_items k v kvs)])
      | _ \<Rightarrow> Inl TypeError)"

definition py_getitem :: "pyval \<Rightarrow> string \<Rightarrow> pyval action" where
  "py_getitem obj k h =
     (case obj_at h obj of
        Some (ODict kvs) \<Rightarrow> (case map_of kvs k of None \<Rightarrow> Inl KeyError | Some v \<Rightarrow> Inr (v, h))
      | _ \<Rightarrow> Inl TypeError)"

definition py_len :: "pyval \<Rightarrow> int action" where
  "py_len obj h =
     (case obj_at h obj of
        Some (OList vs) \<Rightarrow> Inr (int (length vs), h)
      | Some (ODict kvs) \<Rightarrow> Inr (int (length kvs), h)
      | None \<Rightarrow> (case obj of VStr s \<Rightarrow> Inr (int (length s), h) | _ \<Rightarrow> Inl TypeError))"

definition py_add :: "pyval \<Rightarrow> pyval \<Rightarrow> pyval action" where
  "py_add a b h =
     (case (obj_at h a, obj_at h b) of
        (Some (OList xs), Some (OList ys)) \<Rightarrow> new_obj (OList (xs @ ys)) h
      | _ \<Rightarrow> Inl TypeError)"

definition py_attr_append :: "pyval \<Rightarrow> unit action" where
  "py_attr_append obj h =
     (case obj_at h obj of Some (OList vs) \<Rightarrow> Inr ((), h) | _ \<Rightarrow> Inl AttributeError)"

definition py_append :: "pyval \<Rightarrow> pyval \<Rightarrow> unit action" where
  "py_append obj v h =
     (case (obj, obj_at h obj) of
        (VRef a, Some (OList vs)) \<Rightarrow> Inr ((), h[a := OList (vs @ [v])])
      | _ \<Rightarrow> Inl AttributeError)"

text \<open>
  \<^verbatim>\<open>create_merged_metadata\<close> on objects, statement by statement (lines 33 to 54). The
  default of every \<^verbatim>\<open>.get\<close> is built before the call. Line 48 stores in
  \<^verbatim>\<open>merged_info\<close> the list that \<^verbatim>\<open>existing_sources\<close> holds, and line 49 appends to it.
\<close>

definition create_merged_metadata_h :: "string \<Rightarrow> string \<Rightarrow> pyval \<Rightarrow> pyval \<Rightarrow> pyval action" where
  "create_merged_metadata_h now base_file additional_files base_data =
     bind_h (py_len additional_files) (\<lambda>n.
     bind_h (new_obj (ODict [(''merged_at'', VStr now), (''base_file'', VStr base_file),
                             (''additional_files'', additional_files),
                             (''total_files_merged'', VInt (n + 1))])) (\<lambda>merged_info.
     bind_h (py_contains base_data ''merged_sources'') (\<lambda>merged.
     if merged then
       bind_h (new_obj (ODict [])) (\<lambda>empty_dict.
       bind_h (py_get base_data ''merged_sources'' empty_dict) (\<lambda>existing_sources.
       bind_h (py_get existing_sources ''base_file'' (VStr base_file)) (\<lambda>inherited_base.
       bind_h (py_setitem merged_info ''base_file'' inherited_base) (\<lambda>u.
       bind_h (new_obj (OList [])) (\<lambda>empty1.
       bind_h (py_get existing_sources ''additional_files'' empty1) (\<lambda>inherited.
       bind_h (py_add inherited additional_files) (\<lambda>all_additional.
       bind_h (py_setitem merged_info ''additional_files'' all_additional) (\<lambda>u.
       bind_h (py_getitem merged_info ''additional_files'') (\<lambda>current.
       bind_h (py_len current) (\<lambda>n'.
       bind_h (py_setitem merged_info ''total_files_merged'' (VInt (n' + 1))) (\<lambda>u.
       bind_h (new_obj (OList [])) (\<lambda>empty2.
       bind_h (py_get existing_sources ''previous_merges'' empty2) (\<lambda>previous.
       bind_h (py_setitem merged_info ''previous_merges'' previous) (\<lambda>u.
       bind_h (py_getitem merged_info ''previous_merges'') (\<lambda>target.
       bind_h (py_attr_append target) (\<lambda>u.
       bind_h (py_get existing_sources ''merged_at'' VNone) (\<lambda>inherited_at.
       bind_h (py_get existing_sources ''base_file'' VNone) (\<lambda>first.
       bind_h (new_obj (OList [first])) (\<lambda>singleton.
       bind_h (new_obj (OList [])) (\<lambda>empty3.
       bind_h (py_get existing_sources ''additional_files'' empty3) (\<lambda>inherited'.
       bind_h (py_add singleton inherited') (\<lambda>files_in_merge.
       bind_h (new_obj (ODict [(''merged_at'', inherited_at),
                               (''files_in_merge'', files_in_merge)])) (\<lambda>snapshot.
       bind_h (py_append target snapshot) (\<lambda>u.
       return_h merged_info))))))))))))))))))))))))
     else return_h merged_info)))"

section \<open>Example documents\<close>

definition doc_x :: dict where
  "doc_x = [(''name'', JStr ''X''),
            (''data'', JArr [JObj [(''timestamp'', JInt 5), (''v'', JStr ''a'')]])]"

definition doc_y :: dict where
  "doc_y = [(''data'', JArr [JObj [(''timestamp'', JInt 2), (''v'', JStr ''b'')],
                            JObj [(''v'', JStr ''c'')]])]"

definition doc_z :: dict where
  "doc_z = [(''data'', JArr [JObj [(''timestamp'', JInt 3)]])]"

text \<open>\<open>x.json\<close> merged with \<open>y.json\<close> at \<open>t1\<close>, and that result merged with \<open>z.json\<close> at \<open>t2\<close>.\<close>

definition lineage_xy :: dict where
  "lineage_xy =
     [(''merged_at'', JStr ''t1''), (''base_file'', JStr ''x.json''),
      (''additional_files'', JArr [JStr ''y.json'']),
      (''total_files_merged'', JInt 2)]"

definition merged_xy :: dict where
  "merged_xy =
     [(''name'', JStr ''X''),
      (''data'', JArr [JObj [(''v'', JStr ''c'')],
                       JObj [(''timestamp'', JInt 2), (''v'', JStr ''b'')],
                       JObj [(''timestamp'', JInt 5), (''v'', JStr ''a'')]]),
      (''merged_sources'', JObj lineage_xy)]"

definition snapshot_xy :: json where
  "snapshot_xy = JObj [(''merged_at'', JStr ''t1''),
                       (''files_in_merge'', JArr [JStr ''x.json'', JStr ''y.json''])]"

definition lineage_az :: dict where
  "lineage_az =
     [(''merged_at'', JStr ''t2''), (''base_file'', JStr ''x.json''),
      (''additional_files'', JArr [JStr ''y.json'', JStr ''z.json'']),
      (''total_files_merged'', JInt 3),
      (''previous_merges'', JArr [snapshot_xy])]"

definition merged_az :: dict where
  "merged_az =
     [(''name'', JStr ''X''),
      (''data'', JArr [JObj [(''v'', JStr ''c'')],
                       JObj [(''timestamp'', JInt 2), (''v'', JStr ''b'')],
                       JObj [(''timestamp'', JInt 3)],
                       JObj [(''timestamp'', JInt 5), (''v'', JStr ''a'')]]),
      (''merged_sources'', JObj lineage_az)]"

text \<open>Documents with timestamps of two kinds, and documents of the wrong shape.\<close>

definition doc_p :: dict where
  "doc_p = [(''data'', JArr [JObj [(''timestamp'', JInt 2)], JObj [(''timestamp'', JInt 1)]])]"

definition doc_q :: dict where
  "doc_q = [(''data'', JArr [JObj [(''timestamp'', JInt 3)], JObj [(''timestamp'', JStr ''a'')]])]"

definition doc_s :: dict where
  "doc_s = [(''data'', JArr [JObj [(''timestamp'', JStr ''a'')]])]"

definition doc_text :: dict where
  "doc_text = [(''data'', JArr [JStr ''x''])]"

definition doc_object :: dict where
  "doc_object = [(''data'', JObj [])]"

definition doc_bare :: dict where
  "doc_bare = [(''note'', JNull)]"

definition doc_shaped :: dict where
  "doc_shaped = [(''data'', JArr []), (''merged_sources'', JStr ''x.json'')]"

definition example_fs :: filesystem where
  "example_fs p =
     (if p = ''x.json'' then Parsed doc_x
      else if p = ''y.json'' then Parsed doc_y
      else if p = ''z.json'' then Parsed doc_z
      else if p = ''a.json'' then Parsed merged_xy
      else if p = ''b.json'' then Parsed merged_az
      else if p = ''p.json'' then Parsed doc_p
      else if p = ''q.json'' then Parsed doc_q
      else if p = ''s.json'' then Parsed doc_s
      else if p = ''text.json'' then Parsed doc_text
      else if p = ''object.json'' then Parsed doc_object
      else if p = ''bare.json'' then Parsed doc_bare
      else if p = ''shaped.json'' then Parsed doc_shaped
      else Absent)"


text \<open>
  \<open>b.json\<close> as \<^verbatim>\<open>json.load\<close> leaves it in memory, the call of
  \<^verbatim>\<open>create_merged_metadata\<close> that merging it with \<open>w.json\<close> at \<open>t3\<close> makes, and the
  document that the base's reference stands for after the call.
\<close>

definition base_object :: "pyval \<times> heap" where
  "base_object = store_json (JObj merged_az) []"

definition lineage_call :: "error + (pyval \<times> heap)" where
  "lineage_call =
     bind_h (new_obj (OList [VStr ''w.json'']))
       (\<lambda>additional_files.
          create_merged_metadata_h ''t3'' ''b.json'' additional_files (fst base_object))
       (snd base_object)"

definition snapshot_az :: json where
  "snapshot_az = JObj [(''merged_at'', JStr ''t2''),
                       (''files_in_merge'', JArr [JStr ''x.json'', JStr ''y.json'', JStr ''z.json''])]"

definition merged_az_after :: dict where
  "merged_az_after =
     setitem ''merged_sources''
       (JObj (setitem ''previous_merges'' (JArr [snapshot_xy, snapshot_az]) lineage_az))
       merged_az"

section \<open>Dictionaries, loading and the shape of a successful merge\<close>

lemma map_of_setitem: "map_of (setitem k v d) = (map_of d)(k \<mapsto> v)"
  by (induction d) (auto simp: fun_eq_iff)

lemma load_all_paths: "load_all fs ps = Inr docs \<Longrightarrow> map fst docs = ps"
  by (induction ps arbitrary: docs) (auto split: sum.splits)

lemma load_all_Cons:
  "load_all fs (p # ps) = Inr docs \<longleftrightarrow>
     (\<exists>d rest. load_json_file fs p = Inr d \<and> load_all fs ps = Inr rest \<and> docs = (p, d) # rest)"
  by (auto split: sum.splits)

lemma merge_log_files_Inr:
  "merge_log_files fs now file_paths = Inr merged_result \<longleftrightarrow>
     (\<exists>base_filepath base_data others ordered merged_sources.
        2 \<le> length file_paths \<and>
        load_all fs file_paths = Inr ((base_filepath, base_data) # others) \<and>
        validate ((base_filepath, base_data) # others) = Inr () \<and>
        sort_records (records_of base_data @ concat (map (records_of \<circ> snd) others)) = Inr ordered \<and>
        create_merged_metadata now base_filepath (map fst others) base_data = Inr merged_sources \<and>
        merged_result = setitem ''merged_sources'' (JObj merged_sources)
                          (setitem ''data'' (JArr ordered) base_data))"
  unfolding merge_log_files_def Let_def
  by (auto split: sum.splits list.splits prod.splits)

lemma create_merged_metadata_plain:
  "\<not> is_merged_file base_data \<Longrightarrow>
   create_merged_metadata now base_file additional_files base_data =
     Inr [(''merged_at'', JStr now), (''base_file'', JStr base_file),
          (''additional_files'', JArr (map JStr additional_files)),
          (''total_files_merged'', JInt (int (length additional_files) + 1))]"
  by (simp add: create_merged_metadata_def)

lemma error_kinds_distinct:
  "InsufficientInputs \<noteq> MissingDataField p"
  "InsufficientInputs \<noteq> InvalidDataType p"
  "MissingDataField p \<noteq> InvalidDataType q"
  "InvalidDataType q \<noteq> MissingDataField p"
  "MissingDataField p = MissingDataField q \<longleftrightarrow> p = q"
  "InvalidDataType p = InvalidDataType q \<longleftrightarrow> p = q"
proof -
  show "InsufficientInputs \<noteq> MissingDataField p" "InsufficientInputs \<noteq> InvalidDataType p"
    by (simp_all add: InsufficientInputs_def MissingDataField_def InvalidDataType_def)
  have "last (p @ '' is missing required 'data' field'') \<noteq> last (q @ '' 'data' field must be a list'')"
    by simp
  then show "MissingDataField p \<noteq> InvalidDataType q" "InvalidDataType q \<noteq> MissingDataField p"
    by (auto simp: MissingDataField_def InvalidDataType_def)
  show "MissingDataField p = MissingDataField q \<longleftrightarrow> p = q"
    by (simp add: MissingDataField_def)
  show "InvalidDataType p = InvalidDataType q \<longleftrightarrow> p = q"
    by (simp add: InvalidDataType_def)
qed

section \<open>The sort rearranges\<close>

lemma slide_split:
  assumes "l \<le> start" "start < length xs"
  shows "xs = take l xs @ drop l (take start xs) @ [xs ! start] @ drop (Suc start) xs"
proof -
  have "xs = take start xs @ xs ! start # drop (Suc start) xs"
    using assms(2) by (rule id_take_nth_drop)
  moreover have "take start xs = take l xs @ drop l (take start xs)"
    using assms(1) by (metis append_take_drop_id min.absorb1 take_take)
  ultimately show ?thesis by (metis append.assoc append_Cons append_Nil)
qed

lemma mset_slide:
  assumes "l \<le> start" "start < length xs"
  shows "mset (slide xs l start) = mset xs"
proof -
  have "mset xs = mset (take l xs @ drop l (take start xs) @ [xs ! start] @ drop (Suc start) xs)"
    using slide_split [OF assms] by simp
  then show ?thesis by (simp add: slide_def)
qed

lemma length_slide:
  assumes "l \<le> start" "start < length xs"
  shows "length (slide xs l start) = length xs"
  using mset_slide [OF assms] by (metis size_mset)

lemma bisect_bounds:
  "bisect ks pivot l r = Inr m \<Longrightarrow> l < r \<Longrightarrow> l \<le> m \<and> m \<le> r"
proof (induction ks pivot l r rule: bisect.induct)
  case (1 ks pivot l r)
  let ?p = "l + (r - l) div 2"
  from "1.prems"(2) have p: "l \<le> ?p" "?p < r" by auto
  from "1.prems"(1) obtain b where b: "py_lt pivot (ks ! ?p) = Inr b"
    by (subst (asm) bisect.simps) (auto simp: Let_def split: sum.splits)
  show ?case
  proof (cases "(if b then l else ?p + 1) < (if b then ?p else r)")
    case True
    with "1.prems"(1) b have "bisect ks pivot (if b then l else ?p + 1) (if b then ?p else r) = Inr m"
      by (subst (asm) bisect.simps) (simp add: Let_def)
    from "1.IH" [OF refl b refl refl True this True] p show ?thesis
      by (auto split: if_splits)
  next
    case False
    with "1.prems"(1) b have "m = (if b then l else ?p + 1)"
      by (subst (asm) bisect.simps) (simp add: Let_def)
    with p show ?thesis by (auto split: if_splits)
  qed
qed

lemma binarysort_mset:
  "\<forall>s\<in>set idxs. 0 < s \<and> s < length xs \<Longrightarrow> mset (fst (binarysort xs idxs)) = mset xs"
proof (induction idxs arbitrary: xs)
  case Nil
  then show ?case by simp
next
  case (Cons start rest)
  then have s: "0 < start" "start < length xs" by auto
  show ?case
  proof (cases "bisect (map fst xs) (fst (xs ! start)) 0 start")
    case (Inl e)
    then show ?thesis by simp
  next
    case (Inr l)
    from bisect_bounds [OF Inr s(1)] have l: "l \<le> start" by simp
    have "\<forall>s\<in>set rest. 0 < s \<and> s < length (slide xs l start)"
      using Cons.prems by (simp add: length_slide [OF l s(2)])
    from Cons.IH [OF this] Inr show ?thesis
      by (simp add: mset_slide [OF l s(2)])
  qed
qed

lemma run_asc_le: "run_asc prev ks = Inr n \<Longrightarrow> n \<le> length ks"
  by (induction prev ks arbitrary: n rule: run_asc.induct) (auto split: sum.splits if_splits)

lemma run_desc_le: "run_desc prev ks = Inr n \<Longrightarrow> n \<le> length ks"
  by (induction prev ks arbitrary: n rule: run_desc.induct) (auto split: sum.splits if_splits)

lemma count_run_bounds:
  "count_run ks = Inr (n, d) \<Longrightarrow> 2 \<le> length ks \<Longrightarrow> 2 \<le> n \<and> n \<le> length ks"
  by (cases ks rule: count_run.cases)
     (auto split: sum.splits if_splits dest: run_asc_le run_desc_le)

lemma list_sort_mset: "mset (fst (list_sort xs)) = mset xs"
proof (cases "length xs < 2")
  case True
  then show ?thesis by (simp add: list_sort_def)
next
  case False
  show ?thesis
  proof (cases "count_run (map fst xs)")
    case (Inl e)
    with False show ?thesis by (simp add: list_sort_def)
  next
    case (Inr nd)
    obtain n d where nd: "nd = (n, d)" by (cases nd)
    from count_run_bounds [of "map fst xs" n d] Inr nd False
    have n: "2 \<le> n" "n \<le> length xs" by auto
    let ?ys = "if d then rev (take n xs) @ drop n xs else xs"
    have len: "length ?ys = length xs" using n by simp
    have ms: "mset ?ys = mset xs"
      by (simp add: union_code [symmetric] del: union_code) (metis append_take_drop_id mset_append)
    have "\<forall>s\<in>set [n ..< length xs]. 0 < s \<and> s < length ?ys"
      using n len by auto
    from binarysort_mset [OF this] ms Inr nd False show ?thesis
      by (simp add: list_sort_def)
  qed
qed

lemma timestamps_length: "timestamps rs = Inr ks \<Longrightarrow> length ks = length rs"
  by (induction rs arbitrary: ks) (auto split: sum.splits)

lemma timestamps_error: "timestamps rs = Inl e \<Longrightarrow> e = AttributeError"
proof (induction rs)
  case Nil
  then show ?case by simp
next
  case (Cons r rs)
  then show ?case by (cases r) (auto split: sum.splits)
qed

lemma sort_records_mset:
  assumes "sort_records rs = Inr out"
  shows "mset out = mset rs"
proof (cases "timestamps rs")
  case (Inl e)
  with assms timestamps_error [OF Inl] show ?thesis by (simp add: sort_records_def)
next
  case (Inr ks)
  have len: "length ks = length rs" by (rule timestamps_length [OF Inr])
  have "out = map snd (fst (list_sort (zip ks rs)))"
    using assms Inr by (auto simp: sort_records_def split: prod.splits option.splits if_splits)
  then have "mset out = image_mset snd (mset (zip ks rs))"
    by (simp add: list_sort_mset)
  also have "\<dots> = mset (map snd (zip ks rs))" by simp
  also have "\<dots> = mset rs" using len by simp
  finally show ?thesis .
qed

section \<open>The sort on numeric keys\<close>
















section \<open>Which errors can be raised\<close>

lemma py_lt_error:
  "py_lt a b = Inl e \<Longrightarrow> e = TypeError"
  "list_lt xs ys = Inl e \<Longrightarrow> e = TypeError"
  by (induction a b and xs ys rule: py_lt_list_lt.induct)
     (auto split: option.splits if_splits)

lemma run_asc_error: "run_asc prev ks = Inl e \<Longrightarrow> e = TypeError"
  by (induction prev ks rule: run_asc.induct)
     (auto split: sum.splits if_splits dest: py_lt_error(1))

lemma run_desc_error: "run_desc prev ks = Inl e \<Longrightarrow> e = TypeError"
  by (induction prev ks rule: run_desc.induct)
     (auto split: sum.splits if_splits dest: py_lt_error(1))

lemma count_run_error: "count_run ks = Inl e \<Longrightarrow> e = TypeError"
  by (cases ks rule: count_run.cases)
     (auto split: sum.splits if_splits dest: py_lt_error(1) run_asc_error run_desc_error)

lemma bisect_error: "bisect ks pivot l r = Inl e \<Longrightarrow> e = TypeError"
proof (induction ks pivot l r rule: bisect.induct)
  case (1 ks pivot l r)
  define p where "p = l + (r - l) div 2"
  show ?case
  proof (cases "py_lt pivot (ks ! p)")
    case (Inl e')
    with "1.prems" have "e' = e"
      by (subst (asm) bisect.simps) (simp add: Let_def p_def)
    with Inl show ?thesis by (auto dest: py_lt_error(1))
  next
    case (Inr b)
    define l' where "l' = (if b then l else p + 1)"
    define r' where "r' = (if b then p else r)"
    have unfold: "bisect ks pivot l r = (if l' < r' then bisect ks pivot l' r' else Inr l')"
      using Inr by (subst bisect.simps) (simp add: Let_def p_def [symmetric] l'_def r'_def)
    with "1.prems" have lr: "l' < r'" and rec: "bisect ks pivot l' r' = Inl e"
      by (auto split: if_splits)
    from "1.IH" [OF p_def Inr l'_def r'_def lr rec] show ?thesis .
  qed
qed

lemma binarysort_error: "snd (binarysort xs idxs) = Some e \<Longrightarrow> e = TypeError"
  by (induction idxs arbitrary: xs) (auto split: sum.splits dest: bisect_error)

lemma list_sort_error: "snd (list_sort xs) = Some e \<Longrightarrow> e = TypeError"
  by (auto simp: list_sort_def split: if_splits sum.splits prod.splits
           dest: count_run_error binarysort_error)

lemma sort_records_cases:
  "sort_records rs = Inl AttributeError \<and> timestamps rs = Inl AttributeError \<or>
   (\<exists>ks. timestamps rs = Inr ks \<and> sort_records rs = Inr (map snd (fst (list_sort (zip ks rs)))))"
proof (cases "timestamps rs")
  case (Inl e)
  with timestamps_error [OF Inl] show ?thesis by (simp add: sort_records_def)
next
  case (Inr ks)
  obtain ys err where ys: "list_sort (zip ks rs) = (ys, err)" by (cases "list_sort (zip ks rs)")
  have "err = None \<or> err = Some TypeError"
    using list_sort_error [of "zip ks rs"] ys by (cases err) auto
  with Inr ys show ?thesis by (auto simp: sort_records_def)
qed



lemma create_merged_metadata_error:
  "create_merged_metadata now base_file additional_files base_data = Inl e \<Longrightarrow>
     e = AttributeError \<or> e = TypeError"
  unfolding create_merged_metadata_def Let_def
  by (auto split: if_splits json.splits)

lemma validate_records:
  "validate log_data_list = Inr u \<Longrightarrow> (p, d) \<in> set log_data_list \<Longrightarrow>
     map_of d ''data'' = Some (JArr (records_of d))"
proof (induction log_data_list)
  case Nil
  then show ?case by simp
next
  case (Cons a rest)
  obtain q c where a: "a = (q, c)" by (cases a)
  from Cons.prems(1) a have ok: "dict_has c ''data''" "\<exists>rs. dict_get c ''data'' JNull = JArr rs"
      "validate rest = Inr u"
    by (auto split: if_splits json.splits)
  then have "map_of c ''data'' = Some (JArr (records_of c))"
    by (auto simp: dict_has_def dict_get_def records_of_def split: option.splits)
  with Cons a ok(3) show ?case by auto
qed

section \<open>The merge as a whole\<close>

lemma load_all_loaded: "load_all fs ps = Inr l \<Longrightarrow> loaded fs ps = l"
  by (simp add: loaded_def)

lemma merge_log_files_Inr_loaded:
  assumes "merge_log_files fs now file_paths = Inr merged_result"
  obtains base_filepath base_data others ordered merged_sources where
    "2 \<le> length file_paths"
    "load_all fs file_paths = Inr ((base_filepath, base_data) # others)"
    "loaded fs file_paths = (base_filepath, base_data) # others"
    "validate ((base_filepath, base_data) # others) = Inr ()"
    "sort_records (combined_records fs file_paths) = Inr ordered"
    "create_merged_metadata now base_filepath (map fst others) base_data = Inr merged_sources"
    "merged_result = setitem ''merged_sources'' (JObj merged_sources)
                       (setitem ''data'' (JArr ordered) base_data)"
proof -
  from assms obtain base_filepath base_data others ordered merged_sources where *:
    "2 \<le> length file_paths"
    "load_all fs file_paths = Inr ((base_filepath, base_data) # others)"
    "validate ((base_filepath, base_data) # others) = Inr ()"
    "sort_records (records_of base_data @ concat (map (records_of \<circ> snd) others)) = Inr ordered"
    "create_merged_metadata now base_filepath (map fst others) base_data = Inr merged_sources"
    "merged_result = setitem ''merged_sources'' (JObj merged_sources)
                       (setitem ''data'' (JArr ordered) base_data)"
    unfolding merge_log_files_Inr by blast
  have "combined_records fs file_paths = records_of base_data @ concat (map (records_of \<circ> snd) others)"
    using *(2) by (simp add: combined_records_def loaded_def)
  with * that show thesis by (simp add: loaded_def)
qed

lemma merged_result_fields:
  "map_of (setitem ''merged_sources'' (JObj ms) (setitem ''data'' (JArr rs) d)) ''data'' = Some (JArr rs)"
  "map_of (setitem ''merged_sources'' (JObj ms) (setitem ''data'' (JArr rs) d)) ''merged_sources'' = Some (JObj ms)"
  by (simp_all add: map_of_setitem)


lemma create_merged_metadata_rerun:
  assumes "create_merged_metadata now1 base_file additional_files base_data = Inr l1"
  shows "\<exists>l2. create_merged_metadata now2 base_file additional_files base_data = Inr l2 \<and>
           without_merged_at l2 = without_merged_at l1 \<and>
           map_of l1 ''merged_at'' = Some (JStr now1) \<and> map_of l2 ''merged_at'' = Some (JStr now2)"
  using assms unfolding create_merged_metadata_def Let_def without_merged_at_def
  by (auto split: if_splits json.splits)

lemma create_merged_metadata_rerun_error:
  assumes "create_merged_metadata now1 base_file additional_files base_data = Inl e"
  shows "create_merged_metadata now2 base_file additional_files base_data = Inl e"
  using assms unfolding create_merged_metadata_def Let_def
  by (auto split: if_splits json.splits)

lemma validate_first_invalid:
  "validate log_data_list = Inl e \<longleftrightarrow>
     (\<exists>p d. first_invalid log_data_list = Some (p, d) \<and>
            e = (if dict_has d ''data'' then InvalidDataType p else MissingDataField p))"
proof (induction log_data_list)
  case Nil
  then show ?case by (simp add: first_invalid_def)
next
  case (Cons a rest)
  obtain q c where a: "a = (q, c)" by (cases a)
  show ?case
  proof (cases "has_list_data c")
    case True
    then obtain rs where "dict_has c ''data''" "dict_get c ''data'' JNull = JArr rs"
      by (cases "dict_get c ''data'' JNull") (auto simp: has_list_data_def)
    with True a Cons show ?thesis by (simp add: first_invalid_def)
  next
    case False
    have "validate (a # rest) = Inl (if dict_has c ''data'' then InvalidDataType q else MissingDataField q)"
      using False a by (cases "dict_get c ''data'' JNull") (auto simp: has_list_data_def)
    with False a show ?thesis by (auto simp: first_invalid_def)
  qed
qed

lemma load_all_error:
  assumes "load_all fs ps = Inl e"
  shows "e \<noteq> InsufficientInputs \<and> e \<noteq> MissingDataField p \<and> e \<noteq> InvalidDataType p"
  using assms
proof (induction ps)
  case Nil
  then show ?case by simp
next
  case (Cons q ps)
  show ?case
  proof (cases "load_json_file fs q")
    case (Inl e')
    with Cons.prems have "e' = e" by simp
    with Inl show ?thesis
      by (auto simp: load_json_file_def InsufficientInputs_def MissingDataField_def
            InvalidDataType_def split: stored.splits)
  next
    case (Inr d)
    with Cons show ?thesis by (auto split: sum.splits)
  qed
qed

lemma runtime_errors_distinct:
  "AttributeError \<noteq> InsufficientInputs" "TypeError \<noteq> InsufficientInputs"
  "AttributeError \<noteq> MissingDataField p" "TypeError \<noteq> MissingDataField p"
  "AttributeError \<noteq> InvalidDataType p" "TypeError \<noteq> InvalidDataType p"
  by (simp_all add: InsufficientInputs_def MissingDataField_def InvalidDataType_def)

lemma validate_Inr_first_invalid: "validate l = Inr u \<Longrightarrow> first_invalid l = None"
proof (cases "first_invalid l")
  case None
  then show ?thesis .
next
  case (Some a)
  assume v: "validate l = Inr u"
  obtain q d where "a = (q, d)" by (cases a)
  with Some have "validate l = Inl (if dict_has d ''data'' then InvalidDataType q else MissingDataField q)"
    unfolding validate_first_invalid by blast
  with v show ?thesis by simp
qed

lemma merge_log_files_invalid:
  assumes "2 \<le> length file_paths" "load_all fs file_paths = Inr l" "validate l = Inl e"
  shows "merge_log_files fs now file_paths = Inl e"
proof -
  from assms(1,2) load_all_paths [OF assms(2)] obtain bp bd others where "l = (bp, bd) # others"
    by (cases l) auto
  with assms show ?thesis by (simp add: merge_log_files_def)
qed

lemma merge_log_files_runtime:
  assumes "2 \<le> length file_paths" "load_all fs file_paths = Inr l" "validate l = Inr u"
    and "merge_log_files fs now file_paths = Inl e"
  shows "e = AttributeError \<or> e = TypeError"
proof -
  from assms(1,2) load_all_paths [OF assms(2)] obtain bp bd others where l: "l = (bp, bd) # others"
    by (cases l) auto
  let ?all = "records_of bd @ concat (map (records_of \<circ> snd) others)"
  show ?thesis
  proof (cases "sort_records ?all")
    case (Inl e')
    with sort_records_cases [of ?all] have "e' = AttributeError" by auto
    with Inl assms l show ?thesis by (simp add: merge_log_files_def)
  next
    case (Inr ordered)
    with assms l have "create_merged_metadata now bp (map fst others) bd = Inl e"
      by (simp add: merge_log_files_def split: sum.splits)
    then show ?thesis by (rule create_merged_metadata_error)
  qed
qed

lemma merge_failure_cases:
  obtains (few) "length file_paths < 2" "merge_log_files fs now file_paths = Inl InsufficientInputs"
  | (unloaded) e where "2 \<le> length file_paths" "load_all fs file_paths = Inl e"
      "merge_log_files fs now file_paths = Inl e"
  | (invalid) q d where "2 \<le> length file_paths"
      "first_invalid (loaded fs file_paths) = Some (q, d)"
      "merge_log_files fs now file_paths =
         Inl (if dict_has d ''data'' then InvalidDataType q else MissingDataField q)"
  | (checked) "2 \<le> length file_paths" "first_invalid (loaded fs file_paths) = None"
      "\<forall>e. merge_log_files fs now file_paths = Inl e \<longrightarrow> e = AttributeError \<or> e = TypeError"
proof (cases "length file_paths < 2")
  case True
  then have "merge_log_files fs now file_paths = Inl InsufficientInputs"
    by (simp add: merge_log_files_def)
  with True show thesis by (rule few)
next
  case long: False
  then have len: "2 \<le> length file_paths" by simp
  show thesis
  proof (cases "load_all fs file_paths")
    case (Inl e')
    with long have "merge_log_files fs now file_paths = Inl e'"
      by (simp add: merge_log_files_def)
    with len Inl show thesis by (rule unloaded)
  next
    case (Inr l)
    then have ld: "loaded fs file_paths = l" by (simp add: loaded_def)
    show thesis
    proof (cases "validate l")
      case (Inl e')
      have m: "merge_log_files fs now file_paths = Inl e'"
        by (rule merge_log_files_invalid [OF len Inr Inl])
      from Inl obtain q d where qd: "first_invalid l = Some (q, d)"
          "e' = (if dict_has d ''data'' then InvalidDataType q else MissingDataField q)"
        unfolding validate_first_invalid by blast
      show thesis
        by (rule invalid [OF len, of q d]) (simp_all add: ld qd m [unfolded qd(2)])
    next
      case v: (Inr u)
      have none: "first_invalid (loaded fs file_paths) = None"
        using validate_Inr_first_invalid [OF v] ld by simp
      have run: "\<forall>e. merge_log_files fs now file_paths = Inl e \<longrightarrow> e = AttributeError \<or> e = TypeError"
        using merge_log_files_runtime [OF len Inr v] by blast
      show thesis by (rule checked [OF len none run])
    qed
  qed
qed

section \<open>The examples, evaluated\<close>

lemma example_xy: "merge_log_files example_fs ''t1'' [''x.json'', ''y.json''] = Inr merged_xy"
  by code_simp


lemma example_loads:
  "load_json_file example_fs ''x.json'' = Inr doc_x"
  "load_json_file example_fs ''a.json'' = Inr merged_xy"
  by (simp_all add: load_json_file_def example_fs_def)


lemma example_loaded:
  "loaded example_fs [''x.json'', ''y.json''] = [(''x.json'', doc_x), (''y.json'', doc_y)]"
  "loaded example_fs [''shaped.json'', ''x.json''] = [(''shaped.json'', doc_shaped), (''x.json'', doc_x)]"
  "loaded example_fs [''x.json'', ''text.json''] = [(''x.json'', doc_x), (''text.json'', doc_text)]"
  "loaded example_fs [''p.json'', ''q.json''] = [(''p.json'', doc_p), (''q.json'', doc_q)]"
  "loaded example_fs [''s.json'', ''x.json''] = [(''s.json'', doc_s), (''x.json'', doc_x)]"
  by (simp_all add: loaded_def load_json_file_def example_fs_def)

lemma example_valid:
  "valid_input_set example_fs [''x.json'', ''y.json'']"
  "valid_input_set example_fs [''shaped.json'', ''x.json'']"
  "valid_input_set example_fs [''x.json'', ''text.json'']"
  "valid_input_set example_fs [''p.json'', ''q.json'']"
  "valid_input_set example_fs [''s.json'', ''x.json'']"
  by (simp_all add: valid_input_set_def load_json_file_def example_fs_def dict_has_def dict_get_def
        doc_x_def doc_y_def doc_shaped_def doc_text_def doc_p_def doc_q_def doc_s_def)




text \<open>
  On the example, the lineage that the call on objects builds is the one that the function
  on values returns.
\<close>

lemma store_agrees_with_values:
  "(case lineage_call of Inr (merged_info, h) \<Rightarrow> read_json 5 h merged_info | Inl e \<Rightarrow> None) =
   (case create_merged_metadata ''t3'' ''b.json'' [''w.json''] merged_az of
      Inr merged_sources \<Rightarrow> Some (JObj merged_sources)
    | Inl e \<Rightarrow> None)"
  by code_simp

section \<open>The claims\<close>



text \<open>
  C2, as the code has it. The merge fails with \<open>InsufficientInputs\<close> exactly when fewer
  than two paths are given. With two or more, it fails with \<open>MissingDataField\<close> for \<open>p\<close>
  exactly when \<open>p\<close> is the first document, in input order, that fails the check of its
  \<open>data\<close>, and it has no \<open>data\<close> key; with \<open>InvalidDataType\<close> for \<open>p\<close> exactly when
  that first document has a \<open>data\<close> that is not a list. The message names \<open>p\<close>.
\<close>

theorem validation_failures:
  "(merge_log_files fs now file_paths = Inl InsufficientInputs \<longleftrightarrow> length file_paths < 2) \<and>
   (merge_log_files fs now file_paths = Inl (MissingDataField p) \<longleftrightarrow>
      2 \<le> length file_paths \<and>
      (\<exists>d. first_invalid (loaded fs file_paths) = Some (p, d) \<and> \<not> dict_has d ''data'')) \<and>
   (merge_log_files fs now file_paths = Inl (InvalidDataType p) \<longleftrightarrow>
      2 \<le> length file_paths \<and>
      (\<exists>d. first_invalid (loaded fs file_paths) = Some (p, d) \<and> dict_has d ''data'')) \<and>
   MissingDataField p = ValueError (''File '' @ p @ '' is missing required 'data' field'') \<and>
   InvalidDataType p = ValueError (''File '' @ p @ '' 'data' field must be a list'')"
proof -
  let ?m = "merge_log_files fs now file_paths"
  let ?fi = "first_invalid (loaded fs file_paths)"
  have texts: "MissingDataField p = ValueError (''File '' @ p @ '' is missing required 'data' field'')"
    "InvalidDataType p = ValueError (''File '' @ p @ '' 'data' field must be a list'')"
    by (simp_all add: MissingDataField_def InvalidDataType_def)
  have 1: "?m = Inl InsufficientInputs \<longleftrightarrow> length file_paths < 2"
  proof (cases rule: merge_failure_cases [of file_paths fs now])
    case few
    then show ?thesis by simp
  next
    case (unloaded e)
    with load_all_error [OF unloaded(2)] show ?thesis by auto
  next
    case (invalid q d)
    then show ?thesis using error_kinds_distinct(1,2) [of q] by (cases "dict_has d ''data''") auto
  next
    case checked
    then show ?thesis using runtime_errors_distinct(1,2) by auto
  qed
  have 2: "?m = Inl (MissingDataField p) \<longleftrightarrow>
      2 \<le> length file_paths \<and> (\<exists>d. ?fi = Some (p, d) \<and> \<not> dict_has d ''data'')"
  proof (cases rule: merge_failure_cases [of file_paths fs now])
    case few
    then show ?thesis using error_kinds_distinct(1) [of p] by simp
  next
    case (unloaded e)
    have "?fi = None" using unloaded(2) by (simp add: loaded_def first_invalid_def)
    with unloaded load_all_error [OF unloaded(2), of p] show ?thesis by simp
  next
    case (invalid q d)
    show ?thesis
    proof (cases "dict_has d ''data''")
      case True
      with invalid show ?thesis using error_kinds_distinct(4) [of q p] by auto
    next
      case False
      with invalid show ?thesis using error_kinds_distinct(5) [of q p] by auto
    qed
  next
    case checked
    then show ?thesis using runtime_errors_distinct(3,4) [of p] by auto
  qed
  have 3: "?m = Inl (InvalidDataType p) \<longleftrightarrow>
      2 \<le> length file_paths \<and> (\<exists>d. ?fi = Some (p, d) \<and> dict_has d ''data'')"
  proof (cases rule: merge_failure_cases [of file_paths fs now])
    case few
    then show ?thesis using error_kinds_distinct(2) [of p] by simp
  next
    case (unloaded e)
    have "?fi = None" using unloaded(2) by (simp add: loaded_def first_invalid_def)
    with unloaded load_all_error [OF unloaded(2), of p] show ?thesis by simp
  next
    case (invalid q d)
    show ?thesis
    proof (cases "dict_has d ''data''")
      case True
      with invalid show ?thesis using error_kinds_distinct(6) [of q p] by auto
    next
      case False
      with invalid show ?thesis using error_kinds_distinct(3) [of q p] by auto
    qed
  next
    case checked
    then show ?thesis using runtime_errors_distinct(5,6) [of p] by auto
  qed
  from 1 2 3 texts show ?thesis by blast
qed

theorem validation_failures_witness:
  "2 \<le> length [''x.json'', ''bare.json''] \<and>
   first_invalid (loaded example_fs [''x.json'', ''bare.json'']) = Some (''bare.json'', doc_bare) \<and>
   \<not> dict_has doc_bare ''data'' \<and>
   merge_log_files example_fs ''t1'' [''x.json'', ''bare.json''] = Inl (MissingDataField ''bare.json'') \<and>
   MissingDataField ''bare.json'' = ValueError ''File bare.json is missing required 'data' field''"
proof -
  have l: "loaded example_fs [''x.json'', ''bare.json''] = [(''x.json'', doc_x), (''bare.json'', doc_bare)]"
    by (simp add: loaded_def load_json_file_def example_fs_def)
  have x: "has_list_data doc_x" "\<not> has_list_data doc_bare" "\<not> dict_has doc_bare ''data''"
    by (simp_all add: has_list_data_def dict_has_def dict_get_def doc_x_def doc_bare_def)
  then have f: "first_invalid (loaded example_fs [''x.json'', ''bare.json'']) = Some (''bare.json'', doc_bare)"
    by (simp add: l first_invalid_def)
  with x(3) validation_failures [of example_fs "''t1''" "[''x.json'', ''bare.json'']" "''bare.json''"]
  show ?thesis by simp
qed

text \<open>
  C2 as stated ties each failure to the mere presence of a faulty document. Of
  \<open>object.json\<close> (its \<open>data\<close> is an object) and \<open>bare.json\<close> (no \<open>data\<close>), in that order,
  the first is the one reported; and \<open>bare.json\<close> alone is reported as too few inputs.
\<close>

theorem validation_failures_counterexample:
  "load_json_file example_fs ''bare.json'' = Inr doc_bare \<and> \<not> dict_has doc_bare ''data'' \<and>
   merge_log_files example_fs ''t1'' [''object.json'', ''bare.json''] =
     Inl (ValueError ''File object.json 'data' field must be a list'') \<and>
   merge_log_files example_fs ''t1'' [''bare.json''] =
     Inl (ValueError ''At least 2 files are required for merging'')"
  by (simp add: merge_log_files_def load_json_file_def example_fs_def dict_has_def dict_get_def
        doc_bare_def doc_object_def InvalidDataType_def InsufficientInputs_def)

text \<open>
  C3. Whenever the merge succeeds, the \<open>data\<close> of the result has as many records as the
  \<open>data\<close> lists of all the input documents together (each of them is a list then).
\<close>

theorem merged_data_length:
  assumes "merge_log_files fs now file_paths = Inr merged_result"
  shows "\<exists>records. map_of merged_result ''data'' = Some (JArr records) \<and>
           length records =
             sum_list (map (\<lambda>(p, d). length (records_of d)) (loaded fs file_paths)) \<and>
           (\<forall>(p, d) \<in> set (loaded fs file_paths). map_of d ''data'' = Some (JArr (records_of d)))"
proof -
  from assms obtain base_filepath base_data others ordered merged_sources where m:
    "loaded fs file_paths = (base_filepath, base_data) # others"
    "validate ((base_filepath, base_data) # others) = Inr ()"
    "sort_records (combined_records fs file_paths) = Inr ordered"
    "merged_result = setitem ''merged_sources'' (JObj merged_sources)
                       (setitem ''data'' (JArr ordered) base_data)"
    by (rule merge_log_files_Inr_loaded)
  have "mset ordered = mset (combined_records fs file_paths)"
    by (rule sort_records_mset [OF m(3)])
  then have "length ordered = length (combined_records fs file_paths)"
    by (metis size_mset)
  also have "\<dots> = sum_list (map (\<lambda>(p, d). length (records_of d)) (loaded fs file_paths))"
    by (simp add: combined_records_def length_concat comp_def case_prod_unfold)
  finally have len: "length ordered =
      sum_list (map (\<lambda>(p, d). length (records_of d)) (loaded fs file_paths))" .
  have "\<forall>(p, d) \<in> set (loaded fs file_paths). map_of d ''data'' = Some (JArr (records_of d))"
    using validate_records [OF m(2)] m(1) by auto
  with len m(4) show ?thesis by (simp add: merged_result_fields)
qed

theorem merged_data_length_witness:
  "merge_log_files example_fs ''t1'' [''x.json'', ''y.json''] = Inr merged_xy \<and>
   (\<exists>records. map_of merged_xy ''data'' = Some (JArr records) \<and> length records = 1 + 2)"
proof -
  have "loaded example_fs [''x.json'', ''y.json''] = [(''x.json'', doc_x), (''y.json'', doc_y)]"
    by (simp add: loaded_def load_json_file_def example_fs_def)
  moreover have "length (records_of doc_x) = 1" "length (records_of doc_y) = 2"
    by (simp_all add: records_of_def doc_x_def doc_y_def)
  ultimately show ?thesis
    using merged_data_length [OF example_xy] example_xy by auto
qed









text \<open>
  C7, as the code has it. When the base document has no \<open>merged_sources\<close> field, the
  lineage of the result has the base's own path as \<open>base_file\<close>, the additional paths in
  input order as \<open>additional_files\<close>, their number plus one as \<open>total_files_merged\<close>, and
  no \<open>previous_merges\<close> field at all.
\<close>

theorem plain_base_lineage:
  assumes "merge_log_files fs now (base_file # additional_files) = Inr merged_result"
    and "load_json_file fs base_file = Inr base_data"
    and "\<not> is_merged_file base_data"
  shows "\<exists>lineage. map_of merged_result ''merged_sources'' = Some (JObj lineage) \<and>
           map_of lineage ''base_file'' = Some (JStr base_file) \<and>
           map_of lineage ''additional_files'' = Some (JArr (map JStr additional_files)) \<and>
           map_of lineage ''total_files_merged'' = Some (JInt (int (length additional_files) + 1)) \<and>
           map_of lineage ''previous_merges'' = None"
proof -
  from assms(1) obtain base_filepath bd others ordered merged_sources where m:
    "load_all fs (base_file # additional_files) = Inr ((base_filepath, bd) # others)"
    "create_merged_metadata now base_filepath (map fst others) bd = Inr merged_sources"
    "merged_result = setitem ''merged_sources'' (JObj merged_sources)
                       (setitem ''data'' (JArr ordered) bd)"
    by (rule merge_log_files_Inr_loaded)
  from load_all_paths [OF m(1)] have p: "base_filepath = base_file" "map fst others = additional_files"
    by auto
  from m(1) assms(2) have "bd = base_data" by (auto split: sum.splits)
  with m(2) p assms(3) have "merged_sources =
      [(''merged_at'', JStr now), (''base_file'', JStr base_file),
       (''additional_files'', JArr (map JStr additional_files)),
       (''total_files_merged'', JInt (int (length additional_files) + 1))]"
    by (simp add: create_merged_metadata_plain)
  with m(3) show ?thesis by (simp add: merged_result_fields)
qed

theorem plain_base_lineage_witness:
  "merge_log_files example_fs ''t1'' (''x.json'' # [''y.json'']) = Inr merged_xy \<and>
   load_json_file example_fs ''x.json'' = Inr doc_x \<and> \<not> is_merged_file doc_x \<and>
   (\<exists>lineage. map_of merged_xy ''merged_sources'' = Some (JObj lineage) \<and>
      map_of lineage ''base_file'' = Some (JStr ''x.json'') \<and>
      map_of lineage ''additional_files'' = Some (JArr [JStr ''y.json'']) \<and>
      map_of lineage ''total_files_merged'' = Some (JInt 2) \<and>
      map_of lineage ''previous_merges'' = None)"
proof -
  have plain: "\<not> is_merged_file doc_x"
    by (simp add: is_merged_file_def dict_has_def doc_x_def)
  from plain_base_lineage [OF example_xy example_loads(1) plain]
  show ?thesis using plain example_loads(1) example_xy by simp
qed

text \<open>
  C7 as stated asks for \<open>previous_merges\<close> to be the empty sequence. Merging \<open>x.json\<close>,
  which carries no lineage, with \<open>y.json\<close> gives a lineage without that field.
\<close>

theorem plain_base_lineage_counterexample:
  "merge_log_files example_fs ''t1'' [''x.json'', ''y.json''] = Inr merged_xy \<and>
   load_json_file example_fs ''x.json'' = Inr doc_x \<and> \<not> is_merged_file doc_x \<and>
   map_of merged_xy ''merged_sources'' = Some (JObj lineage_xy) \<and>
   map_of lineage_xy ''previous_merges'' \<noteq> Some (JArr [])"
  using example_xy example_loads(1)
  by (simp add: is_merged_file_def dict_has_def doc_x_def merged_xy_def lineage_xy_def)

text \<open>
  C8. The claim is that no input document is changed, and that the new \<open>previous_merges\<close>
  entry goes to a copy of the inherited history. On the base \<open>b.json\<close>, whose lineage has
  a \<open>previous_merges\<close> list, the call appends to that very list: afterwards the base
  document in memory holds two entries where the loaded file had one.
\<close>

theorem base_history_mutated:
  "read_json 5 (snd base_object) (fst base_object) = Some (JObj merged_az) \<and>
   (case lineage_call of
      Inr (merged_info, h) \<Rightarrow> read_json 5 h (fst base_object)
    | Inl e \<Rightarrow> None) = Some (JObj merged_az_after) \<and>
   merged_az_after \<noteq> merged_az"
  by code_simp

text \<open>
  C9. Two runs on the same files differ at most in \<open>merged_at\<close>: when one run succeeds, so
  does the other, with the same \<open>data\<close> and with the same lineage once \<open>merged_at\<close> is
  left out.
\<close>

theorem rerun_same_structure:
  assumes "merge_log_files fs now1 file_paths = Inr r1"
  shows "\<exists>r2 l1 l2. merge_log_files fs now2 file_paths = Inr r2 \<and>
           map_of r2 ''data'' = map_of r1 ''data'' \<and>
           map_of r1 ''merged_sources'' = Some (JObj l1) \<and>
           map_of r2 ''merged_sources'' = Some (JObj l2) \<and>
           without_merged_at l2 = without_merged_at l1 \<and>
           map_of l1 ''merged_at'' = Some (JStr now1) \<and>
           map_of l2 ''merged_at'' = Some (JStr now2)"
proof -
  from assms obtain bp bd others ordered l1 where m:
    "2 \<le> length file_paths"
    "load_all fs file_paths = Inr ((bp, bd) # others)"
    "validate ((bp, bd) # others) = Inr ()"
    "sort_records (records_of bd @ concat (map (records_of \<circ> snd) others)) = Inr ordered"
    "create_merged_metadata now1 bp (map fst others) bd = Inr l1"
    "r1 = setitem ''merged_sources'' (JObj l1) (setitem ''data'' (JArr ordered) bd)"
    unfolding merge_log_files_Inr by blast
  from create_merged_metadata_rerun [OF m(5), of now2] obtain l2 where l2:
    "create_merged_metadata now2 bp (map fst others) bd = Inr l2"
    "without_merged_at l2 = without_merged_at l1"
    "map_of l1 ''merged_at'' = Some (JStr now1)" "map_of l2 ''merged_at'' = Some (JStr now2)"
    by blast
  let ?r2 = "setitem ''merged_sources'' (JObj l2) (setitem ''data'' (JArr ordered) bd)"
  have "merge_log_files fs now2 file_paths = Inr ?r2"
    unfolding merge_log_files_Inr using m(1-4) l2(1) by blast
  with m(6) l2 show ?thesis by (simp add: merged_result_fields)
qed

theorem rerun_same_structure_witness:
  "merge_log_files example_fs ''t1'' [''x.json'', ''y.json''] = Inr merged_xy \<and>
   (\<exists>r2 l1 l2. merge_log_files example_fs ''t9'' [''x.json'', ''y.json''] = Inr r2 \<and>
      map_of r2 ''data'' = map_of merged_xy ''data'' \<and>
      map_of merged_xy ''merged_sources'' = Some (JObj l1) \<and>
      map_of r2 ''merged_sources'' = Some (JObj l2) \<and>
      without_merged_at l2 = without_merged_at l1 \<and>
      map_of l1 ''merged_at'' = Some (JStr ''t1'') \<and>
      map_of l2 ''merged_at'' = Some (JStr ''t9''))"
  using rerun_same_structure [OF example_xy, of "''t9''"] example_xy by simp

text \<open>
  C10. The mere presence of the \<open>merged_sources\<close> key starts the inheritance: for a valid
  input set whose base has a \<open>merged_sources\<close> that is not an object, the merge fails with
  \<^verbatim>\<open>AttributeError\<close>, which is none of the errors the program signals itself.
\<close>

theorem malformed_lineage_escapes:
  assumes "valid_input_set fs file_paths"
    and "map_of (snd (hd (loaded fs file_paths))) ''merged_sources'' = Some v"
    and "\<not> is_object v"
  shows "merge_log_files fs now file_paths = Inl AttributeError \<and> \<not> in_taxonomy AttributeError"
proof -
  from assms(1) obtain l where l: "2 \<le> length file_paths" "load_all fs file_paths = Inr l"
      "validate l = Inr ()"
    by (auto simp: valid_input_set_def split: sum.splits)
  from l(1,2) load_all_paths [OF l(2)] obtain base_filepath base_data others where
    ld: "l = (base_filepath, base_data) # others"
    by (cases l) auto
  with assms(2) l(2) have v: "map_of base_data ''merged_sources'' = Some v" by (simp add: loaded_def)
  have meta: "create_merged_metadata now base_filepath (map fst others) base_data = Inl AttributeError"
    using v assms(3)
    by (cases v) (simp_all add: create_merged_metadata_def is_merged_file_def dict_has_def dict_get_def)
  let ?all = "records_of base_data @ concat (map (records_of \<circ> snd) others)"
  from sort_records_cases [of ?all]
  have "merge_log_files fs now file_paths = Inl AttributeError"
  proof
    assume "sort_records ?all = Inl AttributeError \<and> timestamps ?all = Inl AttributeError"
    with l ld show ?thesis by (simp add: merge_log_files_def)
  next
    assume "\<exists>ks. timestamps ?all = Inr ks \<and> sort_records ?all = Inr (map snd (fst (list_sort (zip ks ?all))))"
    with l ld meta show ?thesis by (auto simp: merge_log_files_def)
  qed
  then show ?thesis by simp
qed

theorem malformed_lineage_escapes_witness:
  "valid_input_set example_fs [''shaped.json'', ''x.json''] \<and>
   map_of (snd (hd (loaded example_fs [''shaped.json'', ''x.json'']))) ''merged_sources'' =
     Some (JStr ''x.json'') \<and>
   \<not> is_object (JStr ''x.json'') \<and>
   merge_log_files example_fs ''t1'' [''shaped.json'', ''x.json''] = Inl AttributeError \<and>
   \<not> in_taxonomy AttributeError"
proof -
  have v: "map_of (snd (hd (loaded example_fs [''shaped.json'', ''x.json'']))) ''merged_sources'' =
      Some (JStr ''x.json'')"
    by (simp add: example_loaded doc_shaped_def)
  have o: "\<not> is_object (JStr ''x.json'')" by simp
  from malformed_lineage_escapes [OF example_valid(2) v o, of "''t1''"] v o example_valid(2)
  show ?thesis by simp
qed

end
